theory Spec2Isabelle
  imports Main "HOL-Library.AList"
begin

section \<open>Python strings\<close>

text \<open>
  A Python \<open>str\<close> is a sequence of Unicode code points; a code point is a natural
  number. \<open>ascii\<close> reads an ASCII literal as such a sequence.
\<close>

type_synonym pystr = "nat list"

definition ascii :: "string \<Rightarrow> pystr" where
  "ascii s = map of_char s"

text \<open>
  \<open>str.isspace\<close>, \<open>str.strip()\<close> and the regular expression class \<open>\s\<close> (on a
  \<open>str\<close> pattern) all test a code point with CPython's \<open>Py_UNICODE_ISSPACE\<close>:
  bidirectional type WS, B or S, or category Zs. The whole list is below.
\<close>

definition py_isspace :: "nat \<Rightarrow> bool" where
  "py_isspace c \<longleftrightarrow>
     (9 \<le> c \<and> c \<le> 13) \<or> (28 \<le> c \<and> c \<le> 32) \<or> c = 133 \<or> c = 160 \<or>
     c = 5760 \<or> (8192 \<le> c \<and> c \<le> 8202) \<or> c = 8232 \<or> c = 8233 \<or>
     c = 8239 \<or> c = 8287 \<or> c = 12288"

text \<open>
  The case tables of CPython's Unicode database are not part of the program; they are
  a parameter of the model. The fields are the four functions that \<open>str.title()\<close>
  calls: \<open>_PyUnicode_IsCased\<close>, \<open>_PyUnicode_IsCaseIgnorable\<close>,
  \<open>_PyUnicode_ToTitleFull\<close> and \<open>_PyUnicode_ToLowerFull\<close> (a full mapping gives one
  to three code points).
\<close>

record unicode_db =
  cased :: "nat \<Rightarrow> bool"
  case_ignorable :: "nat \<Rightarrow> bool"
  title_full :: "nat \<Rightarrow> nat list"
  lower_full :: "nat \<Rightarrow> nat list"

text \<open>The ASCII letters.\<close>

definition ascii_upper :: "nat \<Rightarrow> bool" where
  "ascii_upper c \<longleftrightarrow> 65 \<le> c \<and> c \<le> 90"

definition ascii_lower :: "nat \<Rightarrow> bool" where
  "ascii_lower c \<longleftrightarrow> 97 \<le> c \<and> c \<le> 122"

text \<open>
  Two facts of the Unicode database, as properties of a database. On the ASCII range
  the cased code points are the letters, a lowercase letter has its uppercase letter as
  title case, an uppercase letter has its lowercase letter as lower case, and nothing
  else is mapped. Whitespace is not cased and not mapped, and the mapping of a code
  point that is not whitespace is not empty and holds no whitespace.
\<close>

definition ascii_tables :: "unicode_db \<Rightarrow> bool" where
  "ascii_tables db \<longleftrightarrow>
     (\<forall>c<128.
        cased db c = (ascii_upper c \<or> ascii_lower c) \<and>
        title_full db c = [if ascii_lower c then c - 32 else c] \<and>
        lower_full db c = [if ascii_upper c then c + 32 else c])"

definition whitespace_tables :: "unicode_db \<Rightarrow> bool" where
  "whitespace_tables db \<longleftrightarrow>
     (\<forall>c.
        (py_isspace c \<longrightarrow>
           \<not> cased db c \<and> title_full db c = [c] \<and> lower_full db c = [c]) \<and>
        (\<not> py_isspace c \<longrightarrow>
           title_full db c \<noteq> [] \<and> lower_full db c \<noteq> [] \<and>
           list_all (\<lambda>d. \<not> py_isspace d) (title_full db c) \<and>
           list_all (\<lambda>d. \<not> py_isspace d) (lower_full db c)))"

text \<open>\<open>str.strip()\<close>: whitespace is removed at both ends.\<close>

definition lstrip :: "pystr \<Rightarrow> pystr" where
  "lstrip s = dropWhile py_isspace s"

definition rstrip :: "pystr \<Rightarrow> pystr" where
  "rstrip s = rev (dropWhile py_isspace (rev s))"

definition strip :: "pystr \<Rightarrow> pystr" where
  "strip s = rstrip (lstrip s)"

text \<open>
  \<open>str.title()\<close>, as CPython's \<open>do_title\<close> runs it: one pass with the flag
  \<open>previous_is_cased\<close>; a code point after a cased one is lowered
  (\<open>lower_ucs4\<close>), any other is title-cased, and the flag becomes whether the code
  point read is cased. \<open>seen\<close> holds the code points already read, the last one
  first, and the list after the code point holds those still to read.

  \<open>lower_ucs4\<close> lowers U+03A3 (931) by its context: to U+03C2 (962) when, skipping
  case-ignorable code points, a cased code point stands before it and none after it,
  and to U+03C3 (963) otherwise.
\<close>

definition handle_capital_sigma :: "unicode_db \<Rightarrow> pystr \<Rightarrow> pystr \<Rightarrow> nat" where
  "handle_capital_sigma db seen rest =
     (let b = dropWhile (case_ignorable db) seen;
          final_sigma = (b \<noteq> [] \<and> cased db (hd b))
      in if final_sigma then
           (let a = dropWhile (case_ignorable db) rest
            in if a = [] \<or> \<not> cased db (hd a) then 962 else 963)
         else 963)"

definition lower_ucs4 :: "unicode_db \<Rightarrow> pystr \<Rightarrow> nat \<Rightarrow> pystr \<Rightarrow> pystr" where
  "lower_ucs4 db seen c rest =
     (if c = 931 then [handle_capital_sigma db seen rest] else lower_full db c)"

fun do_title :: "unicode_db \<Rightarrow> pystr \<Rightarrow> bool \<Rightarrow> pystr \<Rightarrow> pystr" where
  "do_title db seen previous_is_cased [] = []"
| "do_title db seen previous_is_cased (c # cs) =
     (if previous_is_cased then lower_ucs4 db seen c cs else title_full db c) @
     do_title db (c # seen) (cased db c) cs"

definition title :: "unicode_db \<Rightarrow> pystr \<Rightarrow> pystr" where
  "title db s = do_title db [] False s"

text \<open>
  \<open>re.sub(r"\s+", " ", s)\<close>: scanning from the left, every maximal run of whitespace
  is replaced by one space (code point 32).
\<close>

function sub_whitespace :: "pystr \<Rightarrow> pystr" where
  "sub_whitespace [] = []"
| "sub_whitespace (c # cs) =
     (if py_isspace c then 32 # sub_whitespace (dropWhile py_isspace cs)
      else c # sub_whitespace cs)"
  by pat_completeness auto
termination
  by (relation "measure length") (auto simp: length_dropWhile_le less_Suc_eq_le)

section \<open>Table cells and the text normaliser\<close>

text \<open>
  A cell of a text column that \<open>pandas.read_csv\<close> returns is a string, or NaN where
  the field is empty. \<open>astype(str)\<close> applies \<open>str\<close> to each cell, and \<open>str\<close> of
  NaN is \<open>nan\<close>. Columns that \<open>read_csv\<close> infers as numeric are not modelled.
\<close>

datatype csv_cell = Text pystr | Missing

fun astype_str :: "csv_cell \<Rightarrow> pystr" where
  "astype_str (Text s) = s"
| "astype_str Missing = ascii ''nan''"

text \<open>
  The two lines of \<open>main\<close> under \<open># basic cleaning\<close>, for one cell:
  \<^verbatim>\<open>df["RawTitle"].astype(str).str.strip().str.title()\<close> and
  \<^verbatim>\<open>df["RawDescription"].astype(str).str.replace(r"\s+", " ", regex=True).str.strip()\<close>.
\<close>

definition basic_cleaning_title :: "unicode_db \<Rightarrow> csv_cell \<Rightarrow> pystr" where
  "basic_cleaning_title db x = title db (strip (astype_str x))"

definition basic_cleaning_desc :: "csv_cell \<Rightarrow> pystr" where
  "basic_cleaning_desc x = strip (sub_whitespace (astype_str x))"

text \<open>
  The properties of a cleaned string: no two whitespace code points side by side, no
  whitespace at either end, and the first code points of its words (a word is a maximal
  run of code points that are not whitespace, as \<open>str.split()\<close> cuts them).
\<close>

fun no_adjacent_space :: "pystr \<Rightarrow> bool" where
  "no_adjacent_space [] = True"
| "no_adjacent_space [c] = True"
| "no_adjacent_space (c # d # cs) =
     (\<not> (py_isspace c \<and> py_isspace d) \<and> no_adjacent_space (d # cs))"

definition no_outer_space :: "pystr \<Rightarrow> bool" where
  "no_outer_space s = (s = [] \<or> (\<not> py_isspace (hd s) \<and> \<not> py_isspace (last s)))"

fun word_heads :: "bool \<Rightarrow> pystr \<Rightarrow> pystr" where
  "word_heads after_space [] = []"
| "word_heads after_space (c # cs) =
     (if after_space \<and> \<not> py_isspace c then c # word_heads False cs
      else word_heads (py_isspace c) cs)"

definition word_initials :: "pystr \<Rightarrow> pystr" where
  "word_initials s = word_heads True s"

section \<open>The prompt and the listing generator\<close>

text \<open>
  \<open>build_prompt\<close> is an f-string: fixed text around the title and the description.
  The text starts and ends with a line break (code point 10); between \<open>1\<close> and
  \<open>2 sentence\<close> the source file holds the three code points 226, 8364 and 8220.
\<close>

definition build_prompt :: "pystr \<Rightarrow> pystr \<Rightarrow> pystr" where
  "build_prompt title_text description =
     [10] @ ascii ''You are helping prepare deal listings. Rewrite the following info'' @
     [10] @ ascii ''into a catchy product title, a short HTML-formatted description (with'' @
     [10] @ ascii ''<h2>, <ul>, <li>, and a few emojis if appropriate), and a 1'' @
     [226, 8364, 8220] @ ascii ''2 sentence SEO description.'' @
     [10, 10] @ ascii ''Deal Title: '' @ title_text @
     [10] @ ascii ''Deal Description: '' @ description @
     [10, 10] @ ascii ''Respond in JSON with keys: title, html_description, seo_description.'' @
     [10]"

text \<open>
  Python values: what \<open>json.loads\<close> returns (a JSON object is a \<open>dict\<close> with string
  keys, here an association list) and NaN, the one float that pandas puts where a value
  is missing. Other floats are not modelled.
\<close>

datatype pyval =
    PNone
  | PBool bool
  | PInt int
  | PNaN
  | PStr pystr
  | PList "pyval list"
  | PDict "(pystr \<times> pyval) list"

text \<open>
  What the body of the \<open>try\<close> in \<open>generate_listing\<close> comes to for one request:
  \<^item> \<open>Raised msg\<close>: \<open>openai.ChatCompletion.create\<close>, or reading
    \<open>response.choices[0].message.content.strip()\<close>, raised an \<open>Exception\<close> \<open>exc\<close>
    with \<open>str(exc) = msg\<close> (network failure, timeout, API error);
  \<^item> \<open>Undecodable msg\<close>: the content came back and \<open>json.loads\<close> raised
    \<open>JSONDecodeError\<close> with that message;
  \<^item> \<open>Decoded v\<close>: \<open>json.loads\<close> returned \<open>v\<close>.
  The service is a function from the prompt to such a reply.
\<close>

datatype reply = Raised pystr | Undecodable pystr | Decoded pyval

text \<open>The row that \<open>generate_listing\<close> receives; it reads these two keys only.\<close>

record row =
  clean_title :: pystr
  clean_desc :: pystr

text \<open>
  \<open>generate_listing\<close>: whatever \<open>json.loads\<close> returned is returned as it is; the
  \<open>except Exception\<close> branch returns the dictionary of four keys.
\<close>

definition generate_listing :: "(pystr \<Rightarrow> reply) \<Rightarrow> row \<Rightarrow> pyval" where
  "generate_listing create r =
     (let prompt = build_prompt (clean_title r) (clean_desc r) in
      case create prompt of
        Decoded v \<Rightarrow> v
      | Raised exc \<Rightarrow>
          PDict [(ascii ''title'', PStr (clean_title r)),
                 (ascii ''html_description'', PStr (clean_desc r)),
                 (ascii ''seo_description'', PStr []),
                 (ascii ''error'', PStr exc)]
      | Undecodable exc \<Rightarrow>
          PDict [(ascii ''title'', PStr (clean_title r)),
                 (ascii ''html_description'', PStr (clean_desc r)),
                 (ascii ''seo_description'', PStr []),
                 (ascii ''error'', PStr exc)])"

text \<open>
  The failures the specification lists for the generation step: the call raises, the
  reply is not JSON, or the reply is JSON without one of the three keys.
\<close>

definition required_keys :: "pystr list" where
  "required_keys = [ascii ''title'', ascii ''html_description'', ascii ''seo_description'']"

fun has_required_keys :: "pyval \<Rightarrow> bool" where
  "has_required_keys (PDict kvs) = list_all (\<lambda>k. k \<in> set (map fst kvs)) required_keys"
| "has_required_keys v = False"

fun generation_failed :: "reply \<Rightarrow> bool" where
  "generation_failed (Raised exc) = True"
| "generation_failed (Undecodable exc) = True"
| "generation_failed (Decoded v) = (\<not> has_required_keys v)"

text \<open>
  Two results of \<open>generate_listing\<close> that a reader of the three keys cannot tell
  apart: two dictionaries that hold the same under \<open>title\<close>, \<open>html_description\<close> and
  \<open>seo_description\<close> (a value or nothing), or the same value twice.
\<close>

fun same_listing :: "pyval \<Rightarrow> pyval \<Rightarrow> bool" where
  "same_listing (PDict kvs) (PDict kvs') =
     list_all (\<lambda>key. map_of kvs key = map_of kvs' key) required_keys"
| "same_listing v v' = (v = v')"

section \<open>Tables\<close>

text \<open>
  A \<open>DataFrame\<close> is held by column: an association list from the column's name to
  its cells, in the order of the header. In a frame every column has as many cells as
  the table has rows (\<open>frame_rows\<close>); the index is the default one (0, 1, \<dots>), as
  \<open>read_csv\<close> builds it, so two columns line up by position.
\<close>

type_synonym 'a frame = "(pystr \<times> 'a list) list"


datatype error = KeyError pystr | ValueError pystr

text \<open>\<open>df[key]\<close> raises \<open>KeyError\<close> when no column has that name.\<close>

definition getitem :: "'a frame \<Rightarrow> pystr \<Rightarrow> error + 'a list" where
  "getitem df key = (case map_of df key of None \<Rightarrow> Inl (KeyError key) | Some column \<Rightarrow> Inr column)"

text \<open>
  \<open>df[key] = column\<close> replaces the column of that name where it stands, or adds the
  column at the end.
\<close>

definition setitem :: "'a frame \<Rightarrow> pystr \<Rightarrow> 'a list \<Rightarrow> 'a frame" where
  "setitem df key column = AList.update key column df"

text \<open>The cells read from the CSV file, as Python values.\<close>

fun from_csv :: "csv_cell \<Rightarrow> pyval" where
  "from_csv (Text s) = PStr s"
| "from_csv Missing = PNaN"

definition from_csv_frame :: "csv_cell frame \<Rightarrow> pyval frame" where
  "from_csv_frame df = map (\<lambda>(name, column). (name, map from_csv column)) df"

subsection \<open>\<open>DataFrame.apply(f, axis=1, result_type="expand")\<close>\<close>

text \<open>
  What \<open>apply\<close> returns, as far as \<open>main\<close> reads it:
  \<^item> \<open>Expanded\<close>: a frame whose columns are named by strings;
  \<^item> \<open>Positional\<close>: a frame whose columns are numbered (the results were lists);
    its rows are kept;
  \<^item> \<open>Series\<close>: the results themselves, one per row (the first was a scalar).
  Subscripting the last two with a string raises \<open>KeyError\<close>.
\<close>

datatype applied = Expanded "pyval frame" | Positional "pyval list list" | Series "pyval list"

fun applied_getitem :: "applied \<Rightarrow> pystr \<Rightarrow> error + pyval list" where
  "applied_getitem (Expanded df) key = getitem df key"
| "applied_getitem (Positional rows) key = Inl (KeyError key)"
| "applied_getitem (Series results) key = Inl (KeyError key)"

text \<open>pandas' \<open>is_sequence\<close>: iterable and sized, and not a string.\<close>

fun is_sequence :: "pyval \<Rightarrow> bool" where
  "is_sequence (PDict kvs) = True"
| "is_sequence (PList vs) = True"
| "is_sequence v = False"

fun dict_keys :: "pyval \<Rightarrow> pystr list" where
  "dict_keys (PDict kvs) = map fst kvs"
| "dict_keys v = []"

fun is_dict :: "pyval \<Rightarrow> bool" where
  "is_dict (PDict kvs) = True"
| "is_dict v = False"

fun is_list :: "pyval \<Rightarrow> bool" where
  "is_list (PList vs) = True"
| "is_list v = False"

fun list_length :: "pyval \<Rightarrow> nat" where
  "list_length (PList vs) = length vs"
| "list_length v = 0"

text \<open>
  The union of the dictionaries' keys, each key once, in the order of first appearance
  (\<open>union_indexes\<close> with \<open>sort=False\<close>).
\<close>

fun union_keys :: "pystr list \<Rightarrow> pystr list \<Rightarrow> pystr list" where
  "union_keys seen [] = []"
| "union_keys seen (k # ks) =
     (if k \<in> set seen then union_keys seen ks else k # union_keys (k # seen) ks)"

text \<open>
  The cell of one result under one key: the dictionary's value, NaN where the key is
  missing; a scalar among dictionaries is repeated under every key.
\<close>

fun expand_cell :: "pystr \<Rightarrow> pyval \<Rightarrow> pyval" where
  "expand_cell key (PDict kvs) = (case map_of kvs key of None \<Rightarrow> PNaN | Some v \<Rightarrow> v)"
| "expand_cell key v = v"

fun positional_row :: "nat \<Rightarrow> pyval \<Rightarrow> pyval list" where
  "positional_row k (PList vs) = vs"
| "positional_row k v = replicate k v"

text \<open>
  \<open>infer_to_same_shape\<close>: the frame constructor on the results, transposed. Lists of
  different lengths are refused, and so are lists mixed with dictionaries. Values that
  are not strings are kept as they are: the inference of column types is not modelled.
\<close>

definition infer_to_same_shape :: "pyval list \<Rightarrow> error + applied" where
  "infer_to_same_shape results =
     (let lists = filter is_list results in
      if lists \<noteq> [] then
        (if \<not> list_all (\<lambda>v. list_length v = list_length (hd lists)) lists
         then Inl (ValueError (ascii ''All arrays must be of the same length''))
         else if list_ex is_dict results
         then Inl (ValueError (ascii ''Mixing dicts with non-Series may lead to ambiguous ordering.''))
         else Inr (Positional (map (positional_row (list_length (hd lists))) results)))
      else
        Inr (Expanded (map (\<lambda>key. (key, map (expand_cell key) results))
                           (union_keys [] (concat (map dict_keys results))))))"

text \<open>
  \<open>apply\<close> on the rows. With no row (\<open>apply_empty_result\<close>) the function is not
  called and, for \<open>result_type="expand"\<close>, a copy of the frame itself is returned.
  Otherwise the function is called on each row in order; when the first result is a
  sequence the results are expanded, and when it is a scalar they are returned as a
  series.
\<close>

definition apply_expand :: "pyval frame \<Rightarrow> (nat \<Rightarrow> row \<Rightarrow> pyval) \<Rightarrow> row list \<Rightarrow> error + applied" where
  "apply_expand df f rows =
     (if rows = [] then Inr (Expanded df)
      else
        (let results = map (\<lambda>(i, r). f i r) (zip [0..<length rows] rows) in
         if is_sequence (hd results) then infer_to_same_shape results
         else Inr (Series results)))"

section \<open>The batch driver\<close>

text \<open>
  \<open>main\<close>, from the frame that \<open>read_csv\<close> returned, with the Unicode database
  that \<open>str.title()\<close> reads. The service answers the request
  of row \<open>i\<close> with \<open>create i\<close>. The run records the prompts sent, in order, and ends
  with the exception that left \<open>main\<close> or with the frame given to \<open>to_csv\<close>.
\<close>

record run =
  requests :: "pystr list"
  outcome :: "error + pyval frame"

text \<open>The three assignments after \<open>apply\<close>.\<close>

definition merge_results :: "pyval frame \<Rightarrow> applied \<Rightarrow> error + pyval frame" where
  "merge_results df results =
     (case applied_getitem results (ascii ''title'') of
        Inl e \<Rightarrow> Inl e
      | Inr t \<Rightarrow>
     (case applied_getitem results (ascii ''html_description'') of
        Inl e \<Rightarrow> Inl e
      | Inr h \<Rightarrow>
     (case applied_getitem results (ascii ''seo_description'') of
        Inl e \<Rightarrow> Inl e
      | Inr s \<Rightarrow>
        Inr (setitem (setitem (setitem df (ascii ''Formatted Title'') t)
               (ascii ''HTML Description'') h) (ascii ''SEO Description'') s))))"

definition make_rows :: "pystr list \<Rightarrow> pystr list \<Rightarrow> row list" where
  "make_rows titles descs =
     map (\<lambda>(t, d). \<lparr>clean_title = t, clean_desc = d\<rparr>) (zip titles descs)"

definition main :: "unicode_db \<Rightarrow> csv_cell frame \<Rightarrow> (nat \<Rightarrow> pystr \<Rightarrow> reply) \<Rightarrow> run" where
  "main db input create =
     (case getitem input (ascii ''RawTitle'') of
        Inl e \<Rightarrow> \<lparr>requests = [], outcome = Inl e\<rparr>
      | Inr raw_titles \<Rightarrow>
     (case getitem input (ascii ''RawDescription'') of
        Inl e \<Rightarrow> \<lparr>requests = [], outcome = Inl e\<rparr>
      | Inr raw_descs \<Rightarrow>
        (let titles = map (basic_cleaning_title db) raw_titles;
             descs = map basic_cleaning_desc raw_descs;
             df = setitem (setitem (from_csv_frame input)
                    (ascii ''clean_title'') (map PStr titles))
                    (ascii ''clean_desc'') (map PStr descs);
             rows = make_rows titles descs
         in \<lparr>requests = map (\<lambda>r. build_prompt (clean_title r) (clean_desc r)) rows,
             outcome =
               (case apply_expand df (\<lambda>i. generate_listing (create i)) rows of
                  Inl e \<Rightarrow> Inl e
                | Inr results \<Rightarrow> merge_results df results)\<rparr>)))"

section \<open>The command line\<close>

text \<open>
  The block under \<open>__main__\<close>. \<open>args.api_key\<close> is the value of \<open>--api-key\<close> when the
  option is given, and else the value of the environment variable, \<open>None\<close> when that
  is not set. \<open>None\<close> and the empty string are false in Python. \<open>SystemExit\<close> with a
  string prints the string and ends the process with status 1, and so does an exception
  that nothing catches.
\<close>

datatype event =
    ReadCsv pystr
  | Request pystr
  | WriteCsv pystr "pyval frame"
  | Print pystr

datatype exit_status = Completed | SystemExit pystr | Uncaught error

fun exit_code :: "exit_status \<Rightarrow> nat" where
  "exit_code Completed = 0"
| "exit_code (SystemExit message) = 1"
| "exit_code (Uncaught e) = 1"

record process =
  events :: "event list"
  status :: exit_status

definition script ::
  "unicode_db \<Rightarrow> pystr option \<Rightarrow> pystr option \<Rightarrow> pystr \<Rightarrow> pystr \<Rightarrow> csv_cell frame \<Rightarrow>
   (nat \<Rightarrow> pystr \<Rightarrow> reply) \<Rightarrow> process" where
  "script db api_key_option api_key_env input_csv output_csv table create =
     (let api_key = (case api_key_option of Some k \<Rightarrow> Some k | None \<Rightarrow> api_key_env) in
      if api_key = None \<or> api_key = Some [] then
        \<lparr>events = [],
         status = SystemExit (ascii ''OpenAI API key required via --api-key or OPENAI_API_KEY env var'')\<rparr>
      else
        (let r = main db table create in
         case outcome r of
           Inl e \<Rightarrow>
             \<lparr>events = ReadCsv input_csv # map Request (requests r), status = Uncaught e\<rparr>
         | Inr df \<Rightarrow>
             \<lparr>events = ReadCsv input_csv # map Request (requests r) @
                [WriteCsv output_csv df, Print (ascii ''Saved formatted deals to '' @ output_csv)],
              status = Completed\<rparr>))"

section \<open>Example inputs\<close>

text \<open>
  An example database: the entries of the Unicode database for the code points up to
  255 (ASCII and Latin-1). Every code point from 256 on is left uncased and unmapped
  in it, so it stands for the Unicode database on strings of code points up to 255 and
  of uncased code points.
\<close>

definition latin1_db :: unicode_db where
  "latin1_db =
     \<lparr>cased = (\<lambda>c. ascii_upper c \<or> ascii_lower c \<or> c = 170 \<or> c = 181 \<or> c = 186 \<or>
                (192 \<le> c \<and> c \<le> 255 \<and> c \<noteq> 215 \<and> c \<noteq> 247)),
      case_ignorable = (\<lambda>c. c \<in> {39, 46, 58, 94, 96, 168, 173, 175, 180, 183, 184}),
      title_full = (\<lambda>c. if ascii_lower c then [c - 32]
                else if c = 181 then [924]
                else if c = 223 then [83, 115]
                else if 224 \<le> c \<and> c \<le> 254 \<and> c \<noteq> 247 then [c - 32]
                else if c = 255 then [376]
                else [c]),
      lower_full = (\<lambda>c. if ascii_upper c then [c + 32]
                else if 192 \<le> c \<and> c \<le> 222 \<and> c \<noteq> 215 then [c + 32]
                else [c])\<rparr>"

text \<open>
  A table with the two columns and no row; a table with two rows, the first title
  with two letters beyond ASCII (U+00EF and U+00E9), the second title missing; a service
  whose reply is a JSON object with the key \<open>title\<close> only; a service that answers
  the first request with a complete object and fails on every other one; a service that
  answers the first request with a complete object and every other one with a JSON
  list.
\<close>

definition header_only :: "csv_cell frame" where
  "header_only = [(ascii ''RawTitle'', []), (ascii ''RawDescription'', [])]"

definition raw_titles :: "csv_cell list" where
  "raw_titles = [Text (ascii '' na'' @ [239] @ ascii ''ve  caf'' @ [233, 32]), Missing]"

definition raw_descs :: "csv_cell list" where
  "raw_descs = [Text (ascii ''4 ports.''), Text (ascii ''a  b'')]"

definition two_deals :: "csv_cell frame" where
  "two_deals = [(ascii ''RawTitle'', raw_titles), (ascii ''RawDescription'', raw_descs)]"


definition mouse_row :: row where
  "mouse_row = \<lparr>clean_title = ascii ''Mouse'', clean_desc = ascii ''small''\<rparr>"

definition title_only :: "pystr \<Rightarrow> reply" where
  "title_only prompt = Decoded (PDict [(ascii ''title'', PStr (ascii ''Mouse!''))])"


definition unreachable :: "pystr \<Rightarrow> reply" where
  "unreachable prompt = Raised (ascii ''Connection error.'')"

definition timed_out :: "pystr \<Rightarrow> reply" where
  "timed_out prompt = Raised (ascii ''Request timed out.'')"

definition unreachable_service :: "nat \<Rightarrow> pystr \<Rightarrow> reply" where
  "unreachable_service i = unreachable"

definition timed_out_service :: "nat \<Rightarrow> pystr \<Rightarrow> reply" where
  "timed_out_service i = timed_out"

definition first_only_service :: "nat \<Rightarrow> pystr \<Rightarrow> reply" where
  "first_only_service i prompt =
     (if i = 0 then
        Decoded (PDict [(ascii ''title'', PStr (ascii ''Hub!'')),
                        (ascii ''html_description'', PStr (ascii ''<h2>Hub</h2>'')),
                        (ascii ''seo_description'', PStr (ascii ''A hub.''))])
      else Raised (ascii ''Connection error.''))"

definition list_second_service :: "nat \<Rightarrow> pystr \<Rightarrow> reply" where
  "list_second_service i prompt =
     (if i = 0 then
        Decoded (PDict [(ascii ''title'', PStr (ascii ''Hub!'')),
                        (ascii ''html_description'', PStr (ascii ''<h2>Hub</h2>'')),
                        (ascii ''seo_description'', PStr (ascii ''A hub.''))])
      else Decoded (PList [PInt 1]))"

text \<open>The table that the run on \<open>two_deals\<close> with \<open>first_only_service\<close> writes.\<close>

definition two_deals_written :: "pyval frame" where
  "two_deals_written =
     [(ascii ''RawTitle'', [PStr (ascii '' na'' @ [239] @ ascii ''ve  caf'' @ [233, 32]), PNaN]),
      (ascii ''RawDescription'', [PStr (ascii ''4 ports.''), PStr (ascii ''a  b'')]),
      (ascii ''clean_title'',
         [PStr (ascii ''Na'' @ [239] @ ascii ''ve  Caf'' @ [233]), PStr (ascii ''Nan'')]),
      (ascii ''clean_desc'', [PStr (ascii ''4 ports.''), PStr (ascii ''a b'')]),
      (ascii ''Formatted Title'', [PStr (ascii ''Hub!''), PStr (ascii ''Nan'')]),
      (ascii ''HTML Description'', [PStr (ascii ''<h2>Hub</h2>''), PStr (ascii ''a b'')]),
      (ascii ''SEO Description'', [PStr (ascii ''A hub.''), PStr []])]"

section \<open>Properties of the text normaliser\<close>

lemma lstrip_hd: "lstrip s \<noteq> [] \<Longrightarrow> \<not> py_isspace (hd (lstrip s))"
  unfolding lstrip_def by (rule hd_dropWhile)

lemma rstrip_last: "rstrip s \<noteq> [] \<Longrightarrow> \<not> py_isspace (last (rstrip s))"
  unfolding rstrip_def by (simp add: last_rev hd_dropWhile)

lemma rstrip_prefix: "s = rstrip s @ rev (takeWhile py_isspace (rev s))"
proof -
  have "rev (takeWhile py_isspace (rev s) @ dropWhile py_isspace (rev s)) = s"
    by (simp only: takeWhile_dropWhile_id rev_rev_ident)
  then show ?thesis unfolding rstrip_def by (simp only: rev_append)
qed

lemma rstrip_hd: "rstrip s \<noteq> [] \<Longrightarrow> hd (rstrip s) = hd s"
  using rstrip_prefix [of s] by (metis hd_append2)

lemma strip_no_outer_space: "no_outer_space (strip s)"
proof (cases "strip s = []")
  case True
  then show ?thesis by (simp add: no_outer_space_def)
next
  case False
  then have ne: "rstrip (lstrip s) \<noteq> []" by (simp add: strip_def)
  then have "lstrip s \<noteq> []" by (auto simp: rstrip_def)
  with ne show ?thesis
    by (simp add: no_outer_space_def strip_def rstrip_hd rstrip_last lstrip_hd)
qed

lemma sub_whitespace_no_adjacent: "no_adjacent_space (sub_whitespace s)"
proof (induction s rule: sub_whitespace.induct)
  case 1
  show ?case by simp
next
  case (2 c cs)
  show ?case
  proof (cases "py_isspace c")
    case True
    let ?r = "dropWhile py_isspace cs"
    have ih: "no_adjacent_space (sub_whitespace ?r)" using 2 True by simp
    show ?thesis
    proof (cases ?r)
      case Nil
      have "sub_whitespace (c # cs) = [32]"
        by (simp only: sub_whitespace.simps True if_True Nil)
      then show ?thesis by (simp only: no_adjacent_space.simps)
    next
      case (Cons d ds)
      then have "\<not> py_isspace d" using hd_dropWhile [of py_isspace cs] by auto
      with Cons True ih show ?thesis by simp
    qed
  next
    case False
    have ih: "no_adjacent_space (sub_whitespace cs)" using 2 False by simp
    with False show ?thesis by (cases "sub_whitespace cs") auto
  qed
qed

lemma no_adjacent_append: "no_adjacent_space (xs @ ys) \<Longrightarrow> no_adjacent_space xs"
  by (induction xs rule: no_adjacent_space.induct) auto

lemma no_adjacent_dropWhile: "no_adjacent_space xs \<Longrightarrow> no_adjacent_space (dropWhile P xs)"
  by (induction xs rule: no_adjacent_space.induct) auto

lemma strip_no_adjacent:
  assumes "no_adjacent_space s"
  shows "no_adjacent_space (strip s)"
proof -
  have "no_adjacent_space (lstrip s)"
    using assms by (simp add: lstrip_def no_adjacent_dropWhile)
  then show ?thesis
    unfolding strip_def using rstrip_prefix [of "lstrip s"] no_adjacent_append by metis
qed

text \<open>
  The mapping of one code point by \<open>do_title\<close>: whitespace stays as it is, and any
  other code point gives code points that are not whitespace.
\<close>

lemma mapped_space:
  assumes "whitespace_tables db" and "py_isspace c"
  shows "(if p then lower_ucs4 db seen c cs else title_full db c) = [c]"
proof -
  have "c \<noteq> 931" using assms(2) by (auto simp: py_isspace_def)
  then show ?thesis
    using assms by (simp add: whitespace_tables_def lower_ucs4_def)
qed

lemma mapped_nonspace:
  assumes "whitespace_tables db" and "\<not> py_isspace c"
  shows "(if p then lower_ucs4 db seen c cs else title_full db c) \<noteq> [] \<and>
    list_all (\<lambda>d. \<not> py_isspace d) (if p then lower_ucs4 db seen c cs else title_full db c)"
proof -
  have s: "\<not> py_isspace (handle_capital_sigma db seen cs)"
    by (simp add: handle_capital_sigma_def Let_def py_isspace_def)
  show ?thesis
    using assms s by (simp add: whitespace_tables_def lower_ucs4_def)
qed

lemma word_heads_append_nonspace:
  "xs \<noteq> [] \<Longrightarrow> list_all (\<lambda>d. \<not> py_isspace d) xs \<Longrightarrow>
   word_heads q (xs @ ys) = (if q then [hd xs] else []) @ word_heads False ys"
proof (induction xs arbitrary: q)
  case Nil
  then show ?case by simp
next
  case (Cons x xs)
  then show ?case by (cases xs) auto
qed

lemma word_heads_do_title:
  assumes "whitespace_tables db"
  shows "(q \<longrightarrow> \<not> p) \<Longrightarrow>
    word_heads q (do_title db seen p s) = map (\<lambda>c. hd (title_full db c)) (word_heads q s)"
proof (induction s arbitrary: seen p q)
  case Nil
  show ?case by simp
next
  case (Cons c cs)
  let ?m = "if p then lower_ucs4 db seen c cs else title_full db c"
  let ?rest = "do_title db (c # seen) (cased db c) cs"
  show ?case
  proof (cases "py_isspace c")
    case True
    have m: "?m = [c]" using assms True by (rule mapped_space)
    have nc: "\<not> cased db c" using assms True by (simp add: whitespace_tables_def)
    have ih: "word_heads True ?rest = map (\<lambda>c. hd (title_full db c)) (word_heads True cs)"
      using Cons.IH [of True "cased db c" "c # seen"] nc by simp
    have "word_heads q (do_title db seen p (c # cs)) = word_heads q ([c] @ ?rest)"
      using m by simp
    also have "\<dots> = word_heads True ?rest" using True by simp
    finally show ?thesis using ih True by simp
  next
    case False
    from mapped_nonspace [OF assms False]
    have m: "?m \<noteq> []" "list_all (\<lambda>d. \<not> py_isspace d) ?m" by blast+
    have ih: "word_heads False ?rest = map (\<lambda>c. hd (title_full db c)) (word_heads False cs)"
      using Cons.IH [of False "cased db c" "c # seen"] by simp
    have "word_heads q (do_title db seen p (c # cs)) = word_heads q (?m @ ?rest)"
      by simp
    also have "\<dots> = (if q then [hd ?m] else []) @ word_heads False ?rest"
      using m by (rule word_heads_append_nonspace)
    also have "\<dots> = (if q then [hd (title_full db c)] else []) @ word_heads False ?rest"
      using Cons.prems by simp
    finally show ?thesis using ih False by simp
  qed
qed

lemma do_title_hd:
  assumes "whitespace_tables db" and "s \<noteq> []" and "\<not> py_isspace (hd s)"
  shows "do_title db seen p s \<noteq> [] \<and> \<not> py_isspace (hd (do_title db seen p s))"
proof -
  from assms(2) obtain c cs where s: "s = c # cs" by (cases s) auto
  with assms(3) have "\<not> py_isspace c" by simp
  from mapped_nonspace [OF assms(1) this, of p seen cs]
  have "(if p then lower_ucs4 db seen c cs else title_full db c) \<noteq> []"
    "\<not> py_isspace (hd (if p then lower_ucs4 db seen c cs else title_full db c))"
    by (auto simp: list_all_iff)
  then show ?thesis unfolding s by (simp split: if_splits)
qed

lemma do_title_last:
  assumes "whitespace_tables db"
  shows "s \<noteq> [] \<Longrightarrow> \<not> py_isspace (last s) \<Longrightarrow>
    do_title db seen p s \<noteq> [] \<and> \<not> py_isspace (last (do_title db seen p s))"
proof (induction s arbitrary: seen p)
  case Nil
  then show ?case by simp
next
  case (Cons c cs)
  let ?m = "if p then lower_ucs4 db seen c cs else title_full db c"
  show ?case
  proof (cases "cs = []")
    case True
    with Cons.prems have "\<not> py_isspace c" by simp
    from mapped_nonspace [OF assms this, of p seen cs]
    have "?m \<noteq> []" "\<not> py_isspace (last ?m)" by (auto simp: list_all_iff)
    with True show ?thesis by (simp split: if_splits)
  next
    case False
    with Cons.prems have "\<not> py_isspace (last cs)" by simp
    from Cons.IH [OF False this, of "c # seen" "cased db c"]
    show ?thesis by simp
  qed
qed

lemma title_no_outer_space:
  assumes "whitespace_tables db" and "no_outer_space s"
  shows "no_outer_space (title db s)"
proof (cases "s = []")
  case True
  then show ?thesis by (simp add: no_outer_space_def title_def)
next
  case False
  with assms(2) have "\<not> py_isspace (hd s)" "\<not> py_isspace (last s)"
    by (simp_all add: no_outer_space_def)
  with do_title_hd [OF assms(1) False, of "[]" False] do_title_last [OF assms(1) False, of "[]" False]
  show ?thesis by (simp add: no_outer_space_def title_def)
qed

lemma ascii_title_initial:
  assumes "ascii_tables db"
  shows "hd (title_full db c) =
    (if c < 128 then (if ascii_lower c then c - 32 else c) else hd (title_full db c))"
  using assms by (simp add: ascii_tables_def)

text \<open>
  On a string of ASCII code points \<open>do_title\<close> reads the ASCII entries only, so any
  two databases with these entries give the same title.
\<close>

lemma do_title_ascii:
  assumes "ascii_tables db" and "ascii_tables db'"
  shows "list_all (\<lambda>c. c < 128) s \<Longrightarrow> do_title db seen p s = do_title db' seen p s"
proof (induction s arbitrary: seen p)
  case Nil
  show ?case by simp
next
  case (Cons c cs)
  then have c: "c < 128" and cs: "list_all (\<lambda>c. c < 128) cs" by simp_all
  from c assms have e: "cased db c = cased db' c" "title_full db c = title_full db' c"
    "lower_full db c = lower_full db' c"
    by (simp_all add: ascii_tables_def)
  from c have "lower_ucs4 db seen c cs = lower_full db c" "lower_ucs4 db' seen c cs = lower_full db' c"
    by (simp_all add: lower_ucs4_def)
  with e Cons.IH [OF cs] show ?case by simp
qed

lemma strip_subset: "set (strip s) \<subseteq> set s"
  unfolding strip_def lstrip_def rstrip_def
  by (metis set_rev set_dropWhileD subsetI)

lemma basic_cleaning_title_ascii:
  assumes "ascii_tables db" and "ascii_tables db'"
    and "list_all (\<lambda>c. c < 128) (astype_str x)"
  shows "basic_cleaning_title db x = basic_cleaning_title db' x"
proof -
  have "list_all (\<lambda>c. c < 128) (strip (astype_str x))"
    using assms(3) strip_subset [of "astype_str x"] by (auto simp: list_all_iff)
  then show ?thesis
    using do_title_ascii [OF assms(1,2)] by (simp add: basic_cleaning_title_def title_def)
qed

lemma latin1_db_ascii: "ascii_tables latin1_db"
  by (auto simp: ascii_tables_def latin1_db_def ascii_upper_def ascii_lower_def)

lemma latin1_db_whitespace: "whitespace_tables latin1_db"
  by (auto simp: whitespace_tables_def latin1_db_def ascii_upper_def ascii_lower_def
      py_isspace_def)

text \<open>
  C2, as the code computes it, for every database with the ASCII entries of the Unicode
  database. The description of the scenario comes out as the specification says. The
  title keeps the three spaces between its words: \<open>strip\<close> removes whitespace at
  the ends only, and \<open>title\<close> changes no whitespace.
\<close>

theorem scenario_wireless_mouse:
  assumes "ascii_tables db"
  shows "basic_cleaning_title db (Text (ascii ''  wireless   mouse  '')) = ascii ''Wireless   Mouse'' \<and>
   basic_cleaning_desc (Text (ascii ''Great   for   travel.'' @ [10, 10] @ ascii ''Compact.''))
     = ascii ''Great for travel. Compact.''"
proof -
  have a: "list_all (\<lambda>c. c < 128) (astype_str (Text (ascii ''  wireless   mouse  '')))"
    by code_simp
  have "basic_cleaning_title latin1_db (Text (ascii ''  wireless   mouse  ''))
      = ascii ''Wireless   Mouse''"
    by code_simp
  then have t: "basic_cleaning_title db (Text (ascii ''  wireless   mouse  ''))
      = ascii ''Wireless   Mouse''"
    using basic_cleaning_title_ascii [OF assms latin1_db_ascii a] by simp
  have d: "basic_cleaning_desc (Text (ascii ''Great   for   travel.'' @ [10, 10] @ ascii ''Compact.''))
     = ascii ''Great for travel. Compact.''"
    by code_simp
  from t d show ?thesis ..
qed

theorem scenario_wireless_mouse_witness:
  "ascii_tables latin1_db \<and>
   basic_cleaning_title latin1_db (Text (ascii ''  wireless   mouse  ''))
     = ascii ''Wireless   Mouse'' \<and>
   basic_cleaning_desc (Text (ascii ''Great   for   travel.'' @ [10, 10] @ ascii ''Compact.''))
     = ascii ''Great for travel. Compact.''"
  using scenario_wireless_mouse [OF latin1_db_ascii] latin1_db_ascii by simp

text \<open>
  C2 as stated fails: the cleaned title of \<open>"  wireless   mouse  "\<close> is not
  \<open>"Wireless Mouse"\<close>.
\<close>

theorem scenario_title_not_collapsed:
  "basic_cleaning_title latin1_db (Text (ascii ''  wireless   mouse  ''))
     \<noteq> ascii ''Wireless Mouse''"
  by code_simp

text \<open>
  C6: for every cell of the description column, the cleaned description has no two
  whitespace code points next to each other and no whitespace at its start or end.
\<close>

theorem clean_desc_whitespace:
  "no_adjacent_space (basic_cleaning_desc x) \<and> no_outer_space (basic_cleaning_desc x)"
  by (simp add: basic_cleaning_desc_def strip_no_adjacent sub_whitespace_no_adjacent
      strip_no_outer_space)

theorem clean_desc_whitespace_witness:
  "basic_cleaning_desc (Text (ascii '' a  b '' @ [9, 10])) = ascii ''a b'' \<and>
   no_adjacent_space (ascii ''a b'') \<and> no_outer_space (ascii ''a b'')"
proof -
  have e: "basic_cleaning_desc (Text (ascii '' a  b '' @ [9, 10])) = ascii ''a b''"
    by code_simp
  show ?thesis
    using clean_desc_whitespace [of "Text (ascii '' a  b '' @ [9, 10])"] e by simp
qed

text \<open>
  C7, amended: for every input string, the cleaned title has no whitespace at its start
  or end, and every word of it begins with the title-case form of the code point that
  begins the same word of the stripped input: the uppercase letter for an ASCII
  lowercase letter, the code point itself for any other ASCII code point (a digit stays
  a digit), and the first code point of the Unicode title-case mapping for a code point
  beyond ASCII.
\<close>

theorem clean_title_words:
  assumes "ascii_tables db" and "whitespace_tables db"
  shows "no_outer_space (basic_cleaning_title db x) \<and>
    word_initials (basic_cleaning_title db x) =
      map (\<lambda>c. if c < 128 then (if ascii_lower c then c - 32 else c)
                else hd (title_full db c))
        (word_initials (strip (astype_str x)))"
proof -
  have o: "no_outer_space (basic_cleaning_title db x)"
    using assms(2) by (simp add: basic_cleaning_title_def title_no_outer_space strip_no_outer_space)
  have "word_initials (basic_cleaning_title db x) =
      map (\<lambda>c. hd (title_full db c)) (word_initials (strip (astype_str x)))"
    using word_heads_do_title [OF assms(2), of True False "[]" "strip (astype_str x)"]
    by (simp add: basic_cleaning_title_def word_initials_def title_def)
  also have "\<dots> = map (\<lambda>c. if c < 128 then (if ascii_lower c then c - 32 else c)
        else hd (title_full db c)) (word_initials (strip (astype_str x)))"
    using ascii_title_initial [OF assms(1)] by (intro map_cong refl)
  finally show ?thesis using o by simp
qed

theorem clean_title_words_witness:
  "ascii_tables latin1_db \<and> whitespace_tables latin1_db \<and>
   basic_cleaning_title latin1_db (Text (ascii '' na'' @ [239] @ ascii ''ve  3d '' @ [233] @ ascii ''cole ''))
     = ascii ''Na'' @ [239] @ ascii ''ve  3D '' @ [201] @ ascii ''cole'' \<and>
   no_outer_space (ascii ''Na'' @ [239] @ ascii ''ve  3D '' @ [201] @ ascii ''cole'') \<and>
   word_initials (ascii ''Na'' @ [239] @ ascii ''ve  3D '' @ [201] @ ascii ''cole'') = [78, 51, 201]"
proof -
  let ?x = "Text (ascii '' na'' @ [239] @ ascii ''ve  3d '' @ [233] @ ascii ''cole '')"
  have e: "basic_cleaning_title latin1_db ?x
      = ascii ''Na'' @ [239] @ ascii ''ve  3D '' @ [201] @ ascii ''cole''"
    by code_simp
  have r: "map (\<lambda>c. if c < 128 then (if ascii_lower c then c - 32 else c)
        else hd (title_full latin1_db c)) (word_initials (strip (astype_str ?x))) = [78, 51, 201]"
    by code_simp
  from clean_title_words [OF latin1_db_ascii latin1_db_whitespace, of ?x] e r
    latin1_db_ascii latin1_db_whitespace
  show ?thesis by simp
qed

text \<open>
  C7 as stated fails: the cleaned title of \<open>"3d printer"\<close> is \<open>"3D Printer"\<close>, and
  its first word begins with the digit 3.
\<close>

theorem clean_title_digit_word:
  "basic_cleaning_title latin1_db (Text (ascii ''3d printer'')) = ascii ''3D Printer'' \<and>
   word_initials (ascii ''3D Printer'') = ascii ''3P'' \<and>
   \<not> list_all ascii_upper
     (word_initials (basic_cleaning_title latin1_db (Text (ascii ''3d printer''))))"
  by code_simp

section \<open>Properties of the listing generator\<close>

text \<open>
  C1, amended: when the request raises or the reply is not JSON, \<open>generate_listing\<close>
  returns the dictionary with the row's cleaned title and description, the empty SEO
  description and the message of the exception. The function has no other branch that
  raises: every reply is turned into a value.
\<close>

theorem generate_listing_fallback:
  assumes "create (build_prompt (clean_title r) (clean_desc r)) = Raised exc \<or>
           create (build_prompt (clean_title r) (clean_desc r)) = Undecodable exc"
  shows "generate_listing create r =
    PDict [(ascii ''title'', PStr (clean_title r)),
           (ascii ''html_description'', PStr (clean_desc r)),
           (ascii ''seo_description'', PStr []),
           (ascii ''error'', PStr exc)]"
  using assms by (auto simp: generate_listing_def)

theorem generate_listing_fallback_witness:
  "unreachable (build_prompt (clean_title mouse_row) (clean_desc mouse_row))
     = Raised (ascii ''Connection error.'') \<and>
   generate_listing unreachable mouse_row =
     PDict [(ascii ''title'', PStr (ascii ''Mouse'')),
            (ascii ''html_description'', PStr (ascii ''small'')),
            (ascii ''seo_description'', PStr []),
            (ascii ''error'', PStr (ascii ''Connection error.''))]"
proof -
  have h: "unreachable (build_prompt (clean_title mouse_row) (clean_desc mouse_row))
      = Raised (ascii ''Connection error.'')"
    by (simp add: unreachable_def)
  show ?thesis
    using generate_listing_fallback [of unreachable mouse_row "ascii ''Connection error.''"] h
    by (simp add: mouse_row_def)
qed

text \<open>
  C1 as stated fails: a reply that is a JSON object without \<open>html_description\<close> and
  \<open>seo_description\<close> counts as a failed generation, and \<open>generate_listing\<close> returns
  that object, not the fallback.
\<close>

theorem generate_listing_incomplete_reply:
  "generation_failed (title_only (build_prompt (clean_title mouse_row) (clean_desc mouse_row))) \<and>
   generate_listing title_only mouse_row = PDict [(ascii ''title'', PStr (ascii ''Mouse!''))]"
  by (simp add: generate_listing_def title_only_def required_keys_def ascii_def)

section \<open>Properties of the batch driver\<close>

text \<open>
  C3, on the code: for the table with the two columns and no row, \<open>main\<close> sends no
  request and ends with \<open>KeyError: 'title'\<close>; nothing is written.
\<close>

theorem main_header_only:
  "main db header_only create =
     \<lparr>requests = [], outcome = Inl (KeyError (ascii ''title''))\<rparr>"
  by (simp add: main_def header_only_def getitem_def setitem_def from_csv_frame_def
      make_rows_def apply_expand_def merge_results_def ascii_def)


lemma map_of_setitem:
  "map_of (setitem df key column) name = (if name = key then Some column else map_of df name)"
  by (simp add: setitem_def update_conv')

lemma getitem_setitem:
  "getitem (setitem df key column) name = (if name = key then Inr column else getitem df name)"
  by (simp add: getitem_def map_of_setitem)





lemma map_of_keys:
  "map_of (map (\<lambda>k. (k, g k)) ks) k = (if k \<in> set ks then Some (g k) else None)"
  by (induction ks) auto

lemma set_union_keys: "set (union_keys seen ks) = set ks - set seen"
  by (induction seen ks rule: union_keys.induct) auto

lemma column_names:
  "ascii ''clean_title'' \<noteq> ascii ''clean_desc''"
  "ascii ''Formatted Title'' \<noteq> ascii ''clean_title''"
  "ascii ''Formatted Title'' \<noteq> ascii ''clean_desc''"
  "ascii ''HTML Description'' \<noteq> ascii ''clean_title''"
  "ascii ''HTML Description'' \<noteq> ascii ''clean_desc''"
  "ascii ''HTML Description'' \<noteq> ascii ''Formatted Title''"
  "ascii ''SEO Description'' \<noteq> ascii ''clean_title''"
  "ascii ''SEO Description'' \<noteq> ascii ''clean_desc''"
  "ascii ''SEO Description'' \<noteq> ascii ''Formatted Title''"
  "ascii ''SEO Description'' \<noteq> ascii ''HTML Description''"
  by (simp_all add: ascii_def)

text \<open>What a run that wrote its table went through.\<close>

lemma main_written:
  assumes "outcome (main db input create) = Inr out"
    and "getitem input (ascii ''RawTitle'') = Inr rt"
    and "getitem input (ascii ''RawDescription'') = Inr rd"
  shows "\<exists>res t h s.
    apply_expand
      (setitem (setitem (from_csv_frame input)
         (ascii ''clean_title'') (map PStr (map (basic_cleaning_title db) rt)))
         (ascii ''clean_desc'') (map PStr (map basic_cleaning_desc rd)))
      (\<lambda>i. generate_listing (create i))
      (make_rows (map (basic_cleaning_title db) rt) (map basic_cleaning_desc rd)) = Inr res \<and>
    applied_getitem res (ascii ''title'') = Inr t \<and>
    applied_getitem res (ascii ''html_description'') = Inr h \<and>
    applied_getitem res (ascii ''seo_description'') = Inr s \<and>
    out = setitem (setitem (setitem
      (setitem (setitem (from_csv_frame input)
         (ascii ''clean_title'') (map PStr (map (basic_cleaning_title db) rt)))
         (ascii ''clean_desc'') (map PStr (map basic_cleaning_desc rd)))
      (ascii ''Formatted Title'') t) (ascii ''HTML Description'') h) (ascii ''SEO Description'') s"
  using assms
  by (simp add: main_def merge_results_def Let_def split: sum.splits)

lemma infer_column:
  assumes "infer_to_same_shape results = Inr res"
    and "applied_getitem res key = Inr column"
  shows "column = map (expand_cell key) results"
proof -
  from assms obtain df where res: "res = Expanded df"
    by (cases res) auto
  with assms(1) have df: "df = map (\<lambda>key. (key, map (expand_cell key) results))
      (union_keys [] (concat (map dict_keys results)))"
    by (auto simp: infer_to_same_shape_def Let_def split: if_splits)
  from assms(2) res have "map_of df key = Some column"
    by (auto simp: getitem_def split: option.splits)
  then show ?thesis
    unfolding df by (simp add: map_of_keys split: if_splits)
qed

lemma apply_column:
  assumes "apply_expand df f rows = Inr res"
    and "applied_getitem res key = Inr column"
    and "rows \<noteq> []"
  shows "column = map (expand_cell key) (map (\<lambda>(i, r). f i r) (zip [0..<length rows] rows))"
proof -
  let ?results = "map (\<lambda>(i, r). f i r) (zip [0..<length rows] rows)"
  show ?thesis
  proof (cases "is_sequence (hd ?results)")
    case True
    with assms(1,3) have "infer_to_same_shape ?results = Inr res"
      by (simp add: apply_expand_def Let_def)
    then show ?thesis using assms(2) by (rule infer_column)
  next
    case False
    with assms(1,3) have "res = Series ?results"
      by (auto simp add: apply_expand_def Let_def)
    with assms(2) show ?thesis by simp
  qed
qed

lemma make_rows_nth:
  "i < length ts \<Longrightarrow> i < length ds \<Longrightarrow>
   make_rows ts ds ! i = \<lparr>clean_title = ts ! i, clean_desc = ds ! i\<rparr>"
  by (simp add: make_rows_def)

lemma length_make_rows: "length (make_rows ts ds) = min (length ts) (length ds)"
  by (simp add: make_rows_def)

lemma results_nth:
  "i < length rows \<Longrightarrow> map (\<lambda>(i, r). f i r) (zip [0..<length rows] rows) ! i = f i (rows ! i)"
  by simp

lemma two_deals_run: "outcome (main latin1_db two_deals first_only_service) = Inr two_deals_written"
  by code_simp

lemma two_deals_columns:
  "getitem two_deals (ascii ''RawTitle'') = Inr raw_titles"
  "getitem two_deals (ascii ''RawDescription'') = Inr raw_descs"
  by (simp_all add: two_deals_def getitem_def ascii_def)

text \<open>
  C9: a table that \<open>main\<close> writes holds the columns \<open>clean_title\<close> and
  \<open>clean_desc\<close>, and their cells are the normalised title and description of each
  row, in the order of the rows.
\<close>

theorem clean_columns_written:
  assumes "outcome (main db input create) = Inr out"
    and "getitem input (ascii ''RawTitle'') = Inr rt"
    and "getitem input (ascii ''RawDescription'') = Inr rd"
  shows "getitem out (ascii ''clean_title'') = Inr (map PStr (map (basic_cleaning_title db) rt)) \<and>
         getitem out (ascii ''clean_desc'') = Inr (map PStr (map basic_cleaning_desc rd))"
proof -
  from main_written [OF assms] obtain res t h s where
    "out = setitem (setitem (setitem
      (setitem (setitem (from_csv_frame input)
         (ascii ''clean_title'') (map PStr (map (basic_cleaning_title db) rt)))
         (ascii ''clean_desc'') (map PStr (map basic_cleaning_desc rd)))
      (ascii ''Formatted Title'') t) (ascii ''HTML Description'') h) (ascii ''SEO Description'') s"
    by blast
  then show ?thesis
    by (simp add: getitem_setitem column_names column_names [symmetric])
qed

theorem clean_columns_written_witness:
  "outcome (main latin1_db two_deals first_only_service) = Inr two_deals_written \<and>
   getitem two_deals (ascii ''RawTitle'') = Inr raw_titles \<and>
   getitem two_deals (ascii ''RawDescription'') = Inr raw_descs \<and>
   getitem two_deals_written (ascii ''clean_title'') =
     Inr (map PStr (map (basic_cleaning_title latin1_db) raw_titles)) \<and>
   getitem two_deals_written (ascii ''clean_desc'') =
     Inr (map PStr (map basic_cleaning_desc raw_descs))"
  using clean_columns_written [OF two_deals_run two_deals_columns] two_deals_run two_deals_columns
  by blast

text \<open>
  C5, amended: in a table that \<open>main\<close> writes, for every row whose reply is a JSON
  object with strings under \<open>title\<close>, \<open>html_description\<close> and \<open>seo_description\<close>,
  these strings are the row's cells in the columns \<open>Formatted Title\<close>,
  \<open>HTML Description\<close> and \<open>SEO Description\<close>.
\<close>

theorem complete_reply_written:
  assumes "outcome (main db input create) = Inr out"
    and "getitem input (ascii ''RawTitle'') = Inr rt"
    and "getitem input (ascii ''RawDescription'') = Inr rd"
    and "i < length rt" and "i < length rd"
    and "create i (build_prompt (basic_cleaning_title db (rt ! i)) (basic_cleaning_desc (rd ! i)))
           = Decoded (PDict kvs)"
    and "map_of kvs (ascii ''title'') = Some (PStr t)"
    and "map_of kvs (ascii ''html_description'') = Some (PStr h)"
    and "map_of kvs (ascii ''seo_description'') = Some (PStr s)"
  shows "\<exists>ts hs ss.
    getitem out (ascii ''Formatted Title'') = Inr ts \<and> i < length ts \<and> ts ! i = PStr t \<and>
    getitem out (ascii ''HTML Description'') = Inr hs \<and> i < length hs \<and> hs ! i = PStr h \<and>
    getitem out (ascii ''SEO Description'') = Inr ss \<and> i < length ss \<and> ss ! i = PStr s"
proof -
  let ?ts = "map (basic_cleaning_title db) rt" and ?ds = "map basic_cleaning_desc rd"
  let ?rows = "make_rows ?ts ?ds"
  let ?f = "\<lambda>i. generate_listing (create i)"
  let ?results = "map (\<lambda>(i, r). ?f i r) (zip [0..<length ?rows] ?rows)"
  from main_written [OF assms(1-3)] obtain res tc hc sc df where
    ap: "apply_expand df ?f ?rows = Inr res"
    and g: "applied_getitem res (ascii ''title'') = Inr tc"
      "applied_getitem res (ascii ''html_description'') = Inr hc"
      "applied_getitem res (ascii ''seo_description'') = Inr sc"
    and out: "out = setitem (setitem (setitem df
      (ascii ''Formatted Title'') tc) (ascii ''HTML Description'') hc) (ascii ''SEO Description'') sc"
    by blast
  have len: "i < length ?rows" using assms(4,5) by (simp add: length_make_rows)
  then have ne: "?rows \<noteq> []" by auto
  have row: "?rows ! i = \<lparr>clean_title = basic_cleaning_title db (rt ! i),
      clean_desc = basic_cleaning_desc (rd ! i)\<rparr>"
    using assms(4,5) by (simp add: make_rows_nth)
  have "?results ! i = ?f i (?rows ! i)" using len by (rule results_nth)
  also have "\<dots> = PDict kvs" using assms(6) by (simp add: row generate_listing_def)
  finally have ri: "?results ! i = PDict kvs" .
  have li: "i < length ?results" using len by simp
  have cols: "tc = map (expand_cell (ascii ''title'')) ?results"
    "hc = map (expand_cell (ascii ''html_description'')) ?results"
    "sc = map (expand_cell (ascii ''seo_description'')) ?results"
    using apply_column [OF ap _ ne] g by blast+
  have "i < length tc \<and> tc ! i = PStr t"
    unfolding cols using li ri assms(7) by (simp del: map_map)
  moreover have "i < length hc \<and> hc ! i = PStr h"
    unfolding cols using li ri assms(8) by (simp del: map_map)
  moreover have "i < length sc \<and> sc ! i = PStr s"
    unfolding cols using li ri assms(9) by (simp del: map_map)
  ultimately show ?thesis
    unfolding out by (simp add: getitem_setitem column_names column_names [symmetric])
qed

theorem complete_reply_written_witness:
  "outcome (main latin1_db two_deals first_only_service) = Inr two_deals_written \<and>
   first_only_service 0 (build_prompt
       (basic_cleaning_title latin1_db (raw_titles ! 0))
       (basic_cleaning_desc (raw_descs ! 0)))
     = Decoded (PDict [(ascii ''title'', PStr (ascii ''Hub!'')),
                       (ascii ''html_description'', PStr (ascii ''<h2>Hub</h2>'')),
                       (ascii ''seo_description'', PStr (ascii ''A hub.''))]) \<and>
   (\<exists>ts hs ss.
      getitem two_deals_written (ascii ''Formatted Title'') = Inr ts \<and> ts ! 0 = PStr (ascii ''Hub!'') \<and>
      getitem two_deals_written (ascii ''HTML Description'') = Inr hs \<and>
        hs ! 0 = PStr (ascii ''<h2>Hub</h2>'') \<and>
      getitem two_deals_written (ascii ''SEO Description'') = Inr ss \<and>
        ss ! 0 = PStr (ascii ''A hub.''))"
proof -
  let ?kvs = "[(ascii ''title'', PStr (ascii ''Hub!'')),
               (ascii ''html_description'', PStr (ascii ''<h2>Hub</h2>'')),
               (ascii ''seo_description'', PStr (ascii ''A hub.''))]"
  have r: "first_only_service 0 (build_prompt
       (basic_cleaning_title latin1_db (raw_titles ! 0))
       (basic_cleaning_desc (raw_descs ! 0)))
     = Decoded (PDict ?kvs)"
    by (simp add: first_only_service_def)
  have l: "0 < length raw_titles" "0 < length raw_descs"
    by (simp_all add: raw_titles_def raw_descs_def)
  have m: "map_of ?kvs (ascii ''title'') = Some (PStr (ascii ''Hub!''))"
    "map_of ?kvs (ascii ''html_description'') = Some (PStr (ascii ''<h2>Hub</h2>''))"
    "map_of ?kvs (ascii ''seo_description'') = Some (PStr (ascii ''A hub.''))"
    by (simp_all add: ascii_def)
  from complete_reply_written [OF two_deals_run two_deals_columns l r m] two_deals_run r
  show ?thesis by blast
qed

text \<open>
  C5 as stated fails: the reply of the first row is a JSON object with the three keys,
  the reply of the second row is a JSON list, and \<open>main\<close>, after both requests,
  ends with \<open>ValueError\<close>: no table is written, and the values of the first row are
  in no column.
\<close>

theorem complete_reply_not_written:
  "list_second_service 0
     (build_prompt (basic_cleaning_title latin1_db (raw_titles ! 0))
        (basic_cleaning_desc (raw_descs ! 0)))
     = Decoded (PDict [(ascii ''title'', PStr (ascii ''Hub!'')),
                       (ascii ''html_description'', PStr (ascii ''<h2>Hub</h2>'')),
                       (ascii ''seo_description'', PStr (ascii ''A hub.''))]) \<and>
   length (requests (main latin1_db two_deals list_second_service)) = 2 \<and>
   outcome (main latin1_db two_deals list_second_service) =
     Inl (ValueError (ascii ''Mixing dicts with non-Series may lead to ambiguous ordering.''))"
  by (simp add: main_def two_deals_def raw_titles_def raw_descs_def list_second_service_def
      getitem_def ascii_def setitem_def from_csv_frame_def make_rows_def apply_expand_def
      generate_listing_def infer_to_same_shape_def merge_results_def)







text \<open>Results that agree on the three keys give the same merge.\<close>

lemma same_listing_facts:
  assumes "same_listing v v'"
  shows "is_list v = is_list v'" and "is_list v \<Longrightarrow> v = v'"
    and "is_dict v = is_dict v'" and "is_sequence v = is_sequence v'"
    and "key \<in> set required_keys \<Longrightarrow> expand_cell key v = expand_cell key v'"
    and "key \<in> set required_keys \<Longrightarrow> key \<in> set (dict_keys v) \<longleftrightarrow> key \<in> set (dict_keys v')"
proof -
  show "is_list v = is_list v'" using assms by (cases v; cases v') auto
  show "is_list v \<Longrightarrow> v = v'" using assms by (cases v; cases v') auto
  show "is_dict v = is_dict v'" using assms by (cases v; cases v') auto
  show "is_sequence v = is_sequence v'" using assms by (cases v; cases v') auto
  show "key \<in> set required_keys \<Longrightarrow> expand_cell key v = expand_cell key v'"
    using assms by (cases v; cases v') (auto simp: list_all_iff)
  show "key \<in> set required_keys \<Longrightarrow> key \<in> set (dict_keys v) \<longleftrightarrow> key \<in> set (dict_keys v')"
  proof -
    assume k: "key \<in> set required_keys"
    have d: "\<And>kvs. key \<in> set (map fst kvs) \<longleftrightarrow> map_of kvs key \<noteq> None"
      by (simp add: map_of_eq_None_iff)
    show ?thesis using assms k
      by (cases v; cases v') (auto simp: list_all_iff d simp del: set_map)
  qed
qed

lemma merge_results_expanded:
  "merge_results df (Expanded (map (\<lambda>key. (key, g key)) ks)) =
     (if ascii ''title'' \<notin> set ks then Inl (KeyError (ascii ''title''))
      else if ascii ''html_description'' \<notin> set ks then Inl (KeyError (ascii ''html_description''))
      else if ascii ''seo_description'' \<notin> set ks then Inl (KeyError (ascii ''seo_description''))
      else Inr (setitem (setitem (setitem df (ascii ''Formatted Title'') (g (ascii ''title'')))
             (ascii ''HTML Description'') (g (ascii ''html_description'')))
             (ascii ''SEO Description'') (g (ascii ''seo_description''))))"
  by (simp add: merge_results_def getitem_def map_of_keys)

lemma same_listing_lists:
  assumes "list_all2 same_listing rs rs'"
  shows "filter is_list rs = filter is_list rs'"
    and "list_ex is_dict rs = list_ex is_dict rs'"
    and "key \<in> set required_keys \<Longrightarrow> map (expand_cell key) rs = map (expand_cell key) rs'"
    and "key \<in> set required_keys \<Longrightarrow>
      key \<in> set (concat (map dict_keys rs)) \<longleftrightarrow> key \<in> set (concat (map dict_keys rs'))"
proof -
  show "filter is_list rs = filter is_list rs'"
    using assms by (induction rule: list_all2_induct) (auto dest: same_listing_facts(1,2))
  show "list_ex is_dict rs = list_ex is_dict rs'"
    using assms by (induction rule: list_all2_induct) (auto dest: same_listing_facts(3))
  show "key \<in> set required_keys \<Longrightarrow> map (expand_cell key) rs = map (expand_cell key) rs'"
    using assms by (induction rule: list_all2_induct) (auto dest: same_listing_facts(5))
  show "key \<in> set required_keys \<Longrightarrow>
      key \<in> set (concat (map dict_keys rs)) \<longleftrightarrow> key \<in> set (concat (map dict_keys rs'))"
    using assms
  proof (induction rule: list_all2_induct)
    case Nil
    show ?case by simp
  next
    case (Cons v vs v' vs')
    from same_listing_facts(6) [OF Cons.hyps(1) Cons.prems]
    have "key \<in> set (dict_keys v) \<longleftrightarrow> key \<in> set (dict_keys v')" .
    with Cons.IH [OF Cons.prems] show ?case by simp
  qed
qed

lemma infer_merge_cong:
  assumes "list_all2 same_listing rs rs'"
  shows "(case infer_to_same_shape rs of Inl e \<Rightarrow> Inl e | Inr res \<Rightarrow> merge_results df res) =
         (case infer_to_same_shape rs' of Inl e \<Rightarrow> Inl e | Inr res \<Rightarrow> merge_results df res)"
proof -
  note l = same_listing_lists [OF assms]
  have rk: "ascii ''title'' \<in> set required_keys" "ascii ''html_description'' \<in> set required_keys"
    "ascii ''seo_description'' \<in> set required_keys"
    by (simp_all add: required_keys_def)
  have pos: "\<And>rows. merge_results df (Positional rows) = Inl (KeyError (ascii ''title''))"
    by (simp add: merge_results_def)
  show ?thesis
  proof (cases "filter is_list rs = []")
    case False
    with l(1) have "filter is_list rs' \<noteq> []" by simp
    with False show ?thesis
      unfolding infer_to_same_shape_def Let_def
      using l(1) l(2) pos by (simp)
  next
    case True
    with l(1) have t': "filter is_list rs' = []" by simp
    have e: "map (expand_cell (ascii ''title'')) rs = map (expand_cell (ascii ''title'')) rs'"
      "map (expand_cell (ascii ''html_description'')) rs
         = map (expand_cell (ascii ''html_description'')) rs'"
      "map (expand_cell (ascii ''seo_description'')) rs
         = map (expand_cell (ascii ''seo_description'')) rs'"
      using l(3) rk by blast+
    have k: "ascii ''title'' \<in> set (union_keys [] (concat (map dict_keys rs))) \<longleftrightarrow>
        ascii ''title'' \<in> set (union_keys [] (concat (map dict_keys rs')))"
      "ascii ''html_description'' \<in> set (union_keys [] (concat (map dict_keys rs))) \<longleftrightarrow>
        ascii ''html_description'' \<in> set (union_keys [] (concat (map dict_keys rs')))"
      "ascii ''seo_description'' \<in> set (union_keys [] (concat (map dict_keys rs))) \<longleftrightarrow>
        ascii ''seo_description'' \<in> set (union_keys [] (concat (map dict_keys rs')))"
      using l(4) rk unfolding set_union_keys by blast+
    have "infer_to_same_shape rs = Inr (Expanded (map (\<lambda>key. (key, map (expand_cell key) rs))
        (union_keys [] (concat (map dict_keys rs)))))"
      using True by (simp add: infer_to_same_shape_def)
    moreover have "infer_to_same_shape rs' = Inr (Expanded (map (\<lambda>key. (key, map (expand_cell key) rs'))
        (union_keys [] (concat (map dict_keys rs')))))"
      using t' by (simp add: infer_to_same_shape_def)
    ultimately show ?thesis
      by (simp only: sum.case merge_results_expanded e k)
  qed
qed

lemma apply_merge_cong:
  assumes "\<forall>i r. same_listing (f i r) (f' i r)"
  shows "(case apply_expand df f rows of Inl e \<Rightarrow> Inl e | Inr res \<Rightarrow> merge_results df res) =
         (case apply_expand df f' rows of Inl e \<Rightarrow> Inl e | Inr res \<Rightarrow> merge_results df res)"
proof (cases "rows = []")
  case True
  then show ?thesis by (simp add: apply_expand_def)
next
  case False
  let ?rs = "map (\<lambda>(i, r). f i r) (zip [0..<length rows] rows)"
  let ?rs' = "map (\<lambda>(i, r). f' i r) (zip [0..<length rows] rows)"
  have rel: "list_all2 same_listing ?rs ?rs'"
    using assms by (auto simp: list_all2_conv_all_nth)
  have ne: "?rs \<noteq> []" "?rs' \<noteq> []" using False by auto
  have "same_listing (hd ?rs) (hd ?rs')"
    using rel ne by (cases ?rs; cases ?rs') auto
  then have sq: "is_sequence (hd ?rs) = is_sequence (hd ?rs')"
    by (rule same_listing_facts(4))
  have ser: "\<And>vs. merge_results df (Series vs) = Inl (KeyError (ascii ''title''))"
    by (simp add: merge_results_def)
  show ?thesis
  proof (cases "is_sequence (hd ?rs)")
    case True
    with sq False infer_merge_cong [OF rel, of df] show ?thesis
      by (simp add: apply_expand_def Let_def)
  next
    case no: False
    with sq False ser show ?thesis
      by (simp add: apply_expand_def Let_def)
  qed
qed

text \<open>
  C10: the run of \<open>main\<close> (the requests and the table written, or the exception)
  depends on the results of \<open>generate_listing\<close> through the keys \<open>title\<close>,
  \<open>html_description\<close> and \<open>seo_description\<close> only: two services whose results agree on
  these three keys give the same run, whatever the results hold under \<open>error\<close> or
  any other key. So no error string reaches the table.
\<close>

theorem only_three_fields_merged:
  assumes "\<forall>i r. same_listing (generate_listing (create i) r) (generate_listing (create' i) r)"
  shows "main db input create = main db input create'"
proof -
  have "\<And>df rows.
      (case apply_expand df (\<lambda>i. generate_listing (create i)) rows of
         Inl e \<Rightarrow> Inl e | Inr res \<Rightarrow> merge_results df res) =
      (case apply_expand df (\<lambda>i. generate_listing (create' i)) rows of
         Inl e \<Rightarrow> Inl e | Inr res \<Rightarrow> merge_results df res)"
    using assms by (intro apply_merge_cong) simp
  then show ?thesis
    by (simp add: main_def Let_def split: sum.splits)
qed

theorem only_three_fields_merged_witness:
  "(\<forall>i r. same_listing (generate_listing (unreachable_service i) r)
       (generate_listing (timed_out_service i) r)) \<and>
   generate_listing (unreachable_service 0) mouse_row \<noteq>
     generate_listing (timed_out_service 0) mouse_row \<and>
   main latin1_db two_deals unreachable_service = main latin1_db two_deals timed_out_service"
proof -
  have h: "\<forall>i r. same_listing (generate_listing (unreachable_service i) r)
       (generate_listing (timed_out_service i) r)"
    by (simp add: generate_listing_def unreachable_service_def timed_out_service_def
        unreachable_def timed_out_def required_keys_def ascii_def)
  have d: "generate_listing (unreachable_service 0) mouse_row \<noteq>
     generate_listing (timed_out_service 0) mouse_row"
    by (simp add: generate_listing_def unreachable_service_def timed_out_service_def
        unreachable_def timed_out_def ascii_def)
  from only_three_fields_merged [OF h, of latin1_db two_deals] h d show ?thesis by blast
qed

section \<open>Properties of the command line\<close>

text \<open>
  C8: with no \<open>--api-key\<close> and no \<open>OPENAI_API_KEY\<close>, the process ends with the message
  and exit status 1, and no event (no file read or written, no request) comes before.
\<close>

theorem script_without_credential:
  "script db None None input_csv output_csv table create =
     \<lparr>events = [],
      status = SystemExit (ascii ''OpenAI API key required via --api-key or OPENAI_API_KEY env var'')\<rparr> \<and>
   exit_code (status (script db None None input_csv output_csv table create)) = 1"
  by (simp add: script_def)

end
